theory Spec2Isabelle
  imports Main
begin

section \<open>Python values used by the loaders\<close>

text \<open>
  Strings are lists of characters. A character stands for one code point; the 8-bit
  \<^typ>\<open>char\<close> type covers the code points U+0000 to U+00FF, and text outside that
  range is outside the model.
\<close>

datatype error =
  JSONDecodeError | KeyError | TypeError | ValueError | IndexError | UnboundLocalError

text \<open>\<^verbatim>\<open>str.isspace\<close> for one character: the code points Python treats as whitespace.\<close>

definition isspace :: "char \<Rightarrow> bool" where
  "isspace c =
     (let n = (of_char c :: nat)
      in (9 \<le> n \<and> n \<le> 13) \<or> (28 \<le> n \<and> n \<le> 32) \<or> n = 133 \<or> n = 160)"

definition lstrip :: "string \<Rightarrow> string" where
  "lstrip s = dropWhile isspace s"

definition rstrip :: "string \<Rightarrow> string" where
  "rstrip s = rev (dropWhile isspace (rev s))"

text \<open>\<^verbatim>\<open>s.strip()\<close>: leading and trailing whitespace removed.\<close>

definition strip :: "string \<Rightarrow> string" where
  "strip s = rstrip (lstrip s)"

text \<open>
  \<^verbatim>\<open>s.split(sep)\<close> with a one-character separator: every occurrence of the separator
  cuts, so a string with n separators gives n + 1 pieces and the empty string gives
  one empty piece.
\<close>

fun str_split :: "char \<Rightarrow> string \<Rightarrow> string list" where
  "str_split sep [] = [[]]"
| "str_split sep (c # cs) =
     (if c = sep then [] # str_split sep cs
      else (case str_split sep cs of
              [] \<Rightarrow> [[c]]
            | p # ps \<Rightarrow> (c # p) # ps))"

text \<open>\<^verbatim>\<open>xs[i]\<close> for a non-negative literal index: IndexError out of range.\<close>

definition index_list :: "'a list \<Rightarrow> nat \<Rightarrow> error + 'a" where
  "index_list xs i = (if i < length xs then Inr (xs ! i) else Inl IndexError)"

text \<open>\<^verbatim>\<open>str(n)\<close> for an integer: decimal digits, a minus sign for negatives.\<close>

definition digit_char :: "nat \<Rightarrow> char" where
  "digit_char d = char_of (48 + d)"

fun str_nat :: "nat \<Rightarrow> string" where
  "str_nat n = (if n < 10 then [digit_char n] else str_nat (n div 10) @ [digit_char (n mod 10)])"

definition str_int :: "int \<Rightarrow> string" where
  "str_int i = (if i < 0 then CHR ''-'' # str_nat (nat (- i)) else str_nat (nat i))"

text \<open>\<^verbatim>\<open>needle in s\<close> for strings: the needle occurs as a contiguous piece.\<close>

fun str_contains :: "string \<Rightarrow> string \<Rightarrow> bool" where
  "str_contains needle [] = (needle = [])"
| "str_contains needle (c # cs) =
     (take (length needle) (c # cs) = needle \<or> str_contains needle cs)"

text \<open>
  A Python dictionary with string keys, in insertion order. Storing under a key that is
  already there replaces the value and keeps the key's place; a dictionary literal
  stores its items from left to right, so a repeated key keeps the last value only.
\<close>

type_synonym 'v dict = "(string \<times> 'v) list"

fun dict_set :: "string \<Rightarrow> 'v \<Rightarrow> 'v dict \<Rightarrow> 'v dict" where
  "dict_set k v [] = [(k, v)]"
| "dict_set k v ((k', v') # d) =
     (if k = k' then (k, v) # d else (k', v') # dict_set k v d)"

definition dict_literal :: "(string \<times> 'v) list \<Rightarrow> 'v dict" where
  "dict_literal items = foldl (\<lambda>d (k, v). dict_set k v d) [] items"

text \<open>
  Decoded JSON. A field value is a scalar (nested values and floats are outside the
  model); a decoded document is an object, kept as its key-value pairs, or anything else.
\<close>

datatype jval = JNull | JBool bool | JInt int | JStr string

datatype json = JObj "(string \<times> jval) list" | JOther

text \<open>\<^verbatim>\<open>str(v)\<close> for a scalar.\<close>

fun py_str :: "jval \<Rightarrow> string" where
  "py_str JNull = ''None''"
| "py_str (JBool b) = (if b then ''True'' else ''False'')"
| "py_str (JInt i) = str_int i"
| "py_str (JStr s) = s"

text \<open>\<^verbatim>\<open>row[key]\<close> on the result of \<^verbatim>\<open>json.loads\<close>: KeyError for a missing key,
  TypeError when the document is not an object.\<close>

fun getitem :: "json \<Rightarrow> string \<Rightarrow> error + jval" where
  "getitem (JObj kvs) k = (case map_of kvs k of None \<Rightarrow> Inl KeyError | Some v \<Rightarrow> Inr v)"
| "getitem JOther k = Inl TypeError"


section \<open>CC3M35L: the streaming join\<close>

subsection \<open>The stream handle and the side table\<close>

text \<open>
  The open text file: the lines \<^verbatim>\<open>readline\<close> would return one after the other (each
  with its line end), and the read cursor, counted in lines. The loader only ever calls
  \<^verbatim>\<open>readline()\<close> and \<^verbatim>\<open>seek(0)\<close>.
\<close>

record handle =
  content :: "string list"
  cursor :: nat

definition readline :: "handle \<Rightarrow> string \<times> handle" where
  "readline fh =
     (if cursor fh < length (content fh)
      then (content fh ! cursor fh, fh\<lparr>cursor := cursor fh + 1\<rparr>)
      else ([], fh))"

definition seek :: "handle \<Rightarrow> nat \<Rightarrow> handle" where
  "seek fh n = fh\<lparr>cursor := n\<rparr>"

text \<open>
  The side table \<^verbatim>\<open>gcc_df\<close>: the rows (caption, img_url) of the headerless TSV in file
  order. \<^verbatim>\<open>_split_generators\<close> shifts the index by one, so row number i of the file
  (counting from 1) has index label i.
\<close>

type_synonym dataframe = "(string \<times> string) list"

text \<open>\<^verbatim>\<open>gcc_df.loc[index, 'img_url']\<close>: KeyError when the label is not in the index.\<close>

fun loc_img_url :: "dataframe \<Rightarrow> jval \<Rightarrow> error + string" where
  "loc_img_url df (JInt i) =
     (if 1 \<le> i \<and> i \<le> int (length df) then Inr (snd (df ! nat (i - 1))) else Inl KeyError)"
| "loc_img_url df _ = Inl KeyError"

subsection \<open>Configuration and output records\<close>

record config =
  name :: string
  schema :: string
  subset_id :: string

datatype example =
  SourceExample
    (ex_id: string) (image_path: string) (src_lang: string) (caption_tokenized: jval)
    (trg_lang: string) (translation_tokenized: jval) (backtranslation_tokenized: jval)
| ImtextExample
    (ex_id: string) (image_paths: "string list") (texts: jval)
    (metadata_context: "jval option") (metadata_labels: "jval option")

text \<open>The two dictionary literals at the end of the loop body, and the final \<^verbatim>\<open>raise\<close>.\<close>

definition make_c_data :: "config \<Rightarrow> int \<Rightarrow> string \<Rightarrow> jval \<Rightarrow> json \<Rightarrow> error + example" where
  "make_c_data cfg idx img_url caption row =
     (if schema cfg = ''source'' then
        (case index_list (str_split CHR ''_'' (subset_id cfg)) 2 of
           Inl e \<Rightarrow> Inl e
         | Inr trg \<Rightarrow>
        (case getitem row ''translation_tokenized'' of
           Inl e \<Rightarrow> Inl e
         | Inr tr \<Rightarrow>
        (case getitem row ''backtranslation_tokenized'' of
           Inl e \<Rightarrow> Inl e
         | Inr bt \<Rightarrow> Inr (SourceExample (str_int idx) img_url ''en'' caption trg tr bt))))
      else if schema cfg = ''seacrowd_imtext'' then
        (case getitem row ''translation_tokenized'' of
           Inl e \<Rightarrow> Inl e
         | Inr tr \<Rightarrow> Inr (ImtextExample (str_int idx) [img_url] tr None None))
      else Inl ValueError)"

subsection \<open>The generator\<close>

text \<open>
  The loop state is \<^verbatim>\<open>(idx, c_data)\<close>. One pass of the loop body over a non-empty
  stripped line gives the records it yields and either the exception it raises or the
  state for the next pass.
\<close>

type_synonym gen_state = "int \<times> example option"

definition iteration ::
  "config \<Rightarrow> (string \<Rightarrow> json option) \<Rightarrow> dataframe \<Rightarrow> string \<Rightarrow> string \<Rightarrow> gen_state
     \<Rightarrow> (int \<times> example) list \<times> (error + gen_state)" where
  "iteration cfg loads gcc_df lang line st =
     (case loads line of
        None \<Rightarrow> ([], Inl JSONDecodeError)
      | Some row \<Rightarrow>
     (case getitem row ''trg_lang'' of
        Inl e \<Rightarrow> ([], Inl e)
      | Inr t \<Rightarrow>
     if t \<noteq> JStr lang then ([], Inr st)
     else
     (case getitem row ''rec_num'' of
        Inl e \<Rightarrow> ([], Inl e)
      | Inr index \<Rightarrow>
     (case getitem row ''caption_tokenized'' of
        Inl e \<Rightarrow> ([], Inl e)
      | Inr caption \<Rightarrow>
     (case loc_img_url gcc_df index of
        Inl e \<Rightarrow> ([], Inl e)
      | Inr img_url \<Rightarrow>
     (let ys = (case snd st of None \<Rightarrow> [] | Some c_data \<Rightarrow> [(fst st, c_data)]);
          idx = fst st + 1
      in case make_c_data cfg idx img_url caption row of
           Inl e \<Rightarrow> (ys, Inl e)
         | Inr c_data \<Rightarrow> (ys, Inr (idx, Some c_data))))))))"

text \<open>
  The \<^verbatim>\<open>while True\<close> loop. The result is what a consumer that pulls the generator to
  its end observes: the records yielded, in order; how the generator ended (the exception
  raised, or the value of its \<^verbatim>\<open>return\<close> statement, which travels in StopIteration and
  is not a yielded record); and the handle afterwards.
\<close>

function loop ::
  "config \<Rightarrow> (string \<Rightarrow> json option) \<Rightarrow> dataframe \<Rightarrow> string \<Rightarrow> handle \<Rightarrow> gen_state
     \<Rightarrow> (int \<times> example) list \<times> (error + gen_state) \<times> handle" where
  "loop cfg loads gcc_df lang fh st =
     (let line = strip (fst (readline fh)); fh1 = snd (readline fh)
      in if line = [] then ([], Inr st, seek fh1 0)
         else (case iteration cfg loads gcc_df lang line st of
                 (ys, Inl e) \<Rightarrow> (ys, Inl e, fh1)
               | (ys, Inr st') \<Rightarrow>
                   (case loop cfg loads gcc_df lang fh1 st' of
                      (zs, out, fh2) \<Rightarrow> (ys @ zs, out, fh2))))"
  by pat_completeness auto

termination
  by (relation "measure (\<lambda>(cfg, loads, gcc_df, lang, fh, st). length (content fh) - cursor fh)")
     (auto simp: readline_def strip_def lstrip_def rstrip_def split: if_splits)

declare loop.simps [simp del]

definition cc3m_generate_examples ::
  "config \<Rightarrow> (string \<Rightarrow> json option) \<Rightarrow> handle \<times> dataframe \<Rightarrow> string
     \<Rightarrow> (int \<times> example) list \<times> (error + gen_state) \<times> handle" where
  "cc3m_generate_examples cfg loads data lang =
     (let split_handler = fst data; gcc_df = snd data
      in loop cfg loads gcc_df lang split_handler (- 1, None))"

text \<open>
  The same loop over the lines the handle has not read yet, without the handle: the
  records yielded and the way the generator ends depend on nothing else.
\<close>

fun run ::
  "config \<Rightarrow> (string \<Rightarrow> json option) \<Rightarrow> dataframe \<Rightarrow> string \<Rightarrow> string list \<Rightarrow> gen_state
     \<Rightarrow> (int \<times> example) list \<times> (error + gen_state)" where
  "run cfg loads gcc_df lang [] st = ([], Inr st)"
| "run cfg loads gcc_df lang (raw # rest) st =
     (let line = strip raw
      in if line = [] then ([], Inr st)
         else (case iteration cfg loads gcc_df lang line st of
                 (ys, Inl e) \<Rightarrow> (ys, Inl e)
               | (ys, Inr st') \<Rightarrow>
                   (case run cfg loads gcc_df lang rest st' of
                      (zs, out) \<Rightarrow> (ys @ zs, out))))"

text \<open>A line the language filter passes: it decodes to an object whose
  \<^verbatim>\<open>trg_lang\<close> is the requested language.\<close>

definition accepted :: "(string \<Rightarrow> json option) \<Rightarrow> string \<Rightarrow> string \<Rightarrow> bool" where
  "accepted loads lang raw =
     (case loads (strip raw) of
        None \<Rightarrow> False
      | Some row \<Rightarrow> getitem row ''trg_lang'' = Inr (JStr lang))"

text \<open>A line the language filter drops: not blank, and it decodes to an object whose
  \<^verbatim>\<open>trg_lang\<close> is present and differs from the requested language.\<close>

definition other_language :: "(string \<Rightarrow> json option) \<Rightarrow> string \<Rightarrow> string \<Rightarrow> bool" where
  "other_language loads lang raw =
     (strip raw \<noteq> [] \<and>
      (case loads (strip raw) of
         None \<Rightarrow> False
       | Some row \<Rightarrow>
           (case getitem row ''trg_lang'' of
              Inl e \<Rightarrow> False
            | Inr t \<Rightarrow> t \<noteq> JStr lang)))"

text \<open>The lines read before the generator stops at a blank line or at the end.\<close>

definition lines_read :: "string list \<Rightarrow> string list" where
  "lines_read ls = takeWhile (\<lambda>raw. strip raw \<noteq> []) ls"

definition accepted_count :: "(string \<Rightarrow> json option) \<Rightarrow> string \<Rightarrow> string list \<Rightarrow> nat" where
  "accepted_count loads lang ls = length (filter (accepted loads lang) (lines_read ls))"

text \<open>The record held back in a loop state, with the key it will be yielded under; and
  the key the next yield of the loop will carry.\<close>

definition held_back :: "gen_state \<Rightarrow> (int \<times> example) list" where
  "held_back st = (case snd st of None \<Rightarrow> [] | Some c_data \<Rightarrow> [(fst st, c_data)])"

definition next_key :: "gen_state \<Rightarrow> int" where
  "next_key st = (case snd st of None \<Rightarrow> fst st + 1 | Some c_data \<Rightarrow> fst st)"

subsection \<open>The per-row image fetch\<close>

text \<open>
  \<^verbatim>\<open>fill_img_path\<close> works on a frame with its index labels: rows are
  (label, (caption, img_url)). \<^verbatim>\<open>DownloadManager().download\<close> is a parameter: it
  gives the local path, or \<open>None\<close> when it raises. The loop also records every URL it
  asks for, in order.

  The two assignments to \<^verbatim>\<open>row["trans_caption"]\<close> and \<^verbatim>\<open>row["backtrans_caption"]\<close>,
  and the one to \<^verbatim>\<open>row["img_path"]\<close>, write to the row object of the iteration and have
  no effect on \<^verbatim>\<open>selected_row\<close>; their right-hand sides are evaluated, and may raise.
\<close>

type_synonym indexed_frame = "(int \<times> (string \<times> string)) list"

definition query_caption :: "indexed_frame \<Rightarrow> jval \<Rightarrow> indexed_frame" where
  "query_caption df v = filter (\<lambda>(idx, row). JStr (fst row) = v) df"

fun fill_rows ::
  "(string \<Rightarrow> string option) \<Rightarrow> json \<Rightarrow> indexed_frame \<Rightarrow> int list \<times> string list
     \<Rightarrow> error + (int list \<times> string list)" where
  "fill_rows download line [] (exceptions, requested) = Inr (exceptions, requested)"
| "fill_rows download line ((idx, row) # rest) (exceptions, requested) =
     (case getitem line ''translation_tokenized'' of
        Inl e \<Rightarrow> Inl e
      | Inr trans_caption \<Rightarrow>
     (case getitem line ''backtranslation_tokenized'' of
        Inl e \<Rightarrow> Inl e
      | Inr backtrans_caption \<Rightarrow>
     (case download (snd row) of
        Some img_path \<Rightarrow>
          fill_rows download line rest (exceptions, requested @ [snd row])
      | None \<Rightarrow>
          fill_rows download line rest (exceptions @ [idx], requested @ [snd row]))))"

definition fill_img_path ::
  "(string \<Rightarrow> string option) \<Rightarrow> indexed_frame \<Rightarrow> json
     \<Rightarrow> error + (indexed_frame \<times> int list \<times> string list)" where
  "fill_img_path download df line =
     (case getitem line ''caption_tokenized'' of
        Inl e \<Rightarrow> Inl e
      | Inr v \<Rightarrow>
          (let selected_row = query_caption df v
           in if selected_row = [] then Inr (selected_row, [], [])
              else (case fill_rows download line selected_row ([], []) of
                      Inl e \<Rightarrow> Inl e
                    | Inr (exceptions, requested) \<Rightarrow>
                        Inr (selected_row, exceptions, requested))))"


section \<open>IndonesianMadureseBibleTranslationDataset\<close>

text \<open>
  The corpus directory is the list \<^verbatim>\<open>os.listdir\<close> gives, each entry with the lines
  \<^verbatim>\<open>readlines\<close> returns for it. A row of \<^verbatim>\<open>all_data\<close> is the dictionary with the keys
  \<^verbatim>\<open>src\<close>, \<^verbatim>\<open>tgt\<close> and \<^verbatim>\<open>id\<close>; \<^verbatim>\<open>train.jsonl\<close> holds these rows, and reading it
  gives them back.
\<close>

record corpus_row =
  src :: string
  tgt :: string
  row_id :: nat

text \<open>The inner loop over the lines of one file; the state is \<^verbatim>\<open>(all_data, id)\<close>.\<close>

fun read_corpus_lines ::
  "string list \<Rightarrow> corpus_row list \<times> nat \<Rightarrow> error + (corpus_row list \<times> nat)" where
  "read_corpus_lines [] (all_data, i) = Inr (all_data, i)"
| "read_corpus_lines (line # rest) (all_data, i) =
     (if line \<noteq> [CHR 0x0A] then
        (case index_list (str_split (CHR 0x09) line) 0 of
           Inl e \<Rightarrow> Inl e
         | Inr s \<Rightarrow>
        (case index_list (str_split (CHR 0x09) line) 1 of
           Inl e \<Rightarrow> Inl e
         | Inr t \<Rightarrow>
             read_corpus_lines rest (all_data @ [\<lparr>src = s, tgt = t, row_id = i\<rparr>], i + 1)))
      else read_corpus_lines rest (all_data, i + 1))"

text \<open>The outer loop over the selected paths.\<close>

fun read_corpus_files ::
  "string list list \<Rightarrow> corpus_row list \<times> nat \<Rightarrow> error + (corpus_row list \<times> nat)" where
  "read_corpus_files [] acc = Inr acc"
| "read_corpus_files (data # rest) acc =
     (case read_corpus_lines data acc of
        Inl e \<Rightarrow> Inl e
      | Inr acc' \<Rightarrow> read_corpus_files rest acc')"

text \<open>
  \<^verbatim>\<open>_split_generators\<close>: the result is the exception, or the rows written to
  \<^verbatim>\<open>train.jsonl\<close>, the file the one split is then generated from. Nothing is written
  and no split exists when the loops raise.
\<close>

definition madurese_split_generators ::
  "string \<Rightarrow> (string \<times> string list) list \<Rightarrow> error + corpus_row list" where
  "madurese_split_generators data_dir listing =
     (let all_raw_path = map (\<lambda>(item, ls). (data_dir @ ''/'' @ item, ls)) listing;
          all_path = filter (\<lambda>(raw_path, ls). str_contains ''txt'' raw_path) all_raw_path
      in case read_corpus_files (map snd all_path) ([], 0) of
           Inl e \<Rightarrow> Inl e
         | Inr (all_data, i) \<Rightarrow> Inr all_data)"





text \<open>The lists of lines of the entries whose path contains \<^verbatim>\<open>txt\<close>, in listing order;
  a line that is not the bare newline and has no tab; and the numbering the loops keep:
  the ids given so far are strictly increasing and below the counter.\<close>


definition selected_files :: "string \<Rightarrow> (string \<times> string list) list \<Rightarrow> string list list" where
  "selected_files data_dir listing =
     map snd (filter (\<lambda>(item, ls). str_contains ''txt'' (data_dir @ ''/'' @ item)) listing)"

definition untabbed :: "string \<Rightarrow> bool" where
  "untabbed line = (line \<noteq> [CHR 0x0A] \<and> CHR 0x09 \<notin> set line)"



section \<open>ViConDataset\<close>

text \<open>
  \<^verbatim>\<open>pd.DataFrame(data[1:], columns=data[0])\<close> on lists of strings: the frame is as wide
  as its longest row, shorter rows are filled with \<^verbatim>\<open>None\<close>, and the call raises
  ValueError when that width is not the number of column names. The index is
  0, 1, 2, ... Column names are taken to be distinct (a lookup finds the first).
\<close>

record frame =
  columns :: "string list"
  rows :: "jval list list"

definition DataFrame :: "string list list \<Rightarrow> string list \<Rightarrow> error + frame" where
  "DataFrame body cols =
     (let width = foldr max (map length body) 0
      in if body \<noteq> [] \<and> width \<noteq> length cols then Inl ValueError
         else Inr \<lparr>columns = cols,
                   rows = map (\<lambda>r. map JStr r @ replicate (width - length r) JNull) body\<rparr>)"

text \<open>\<^verbatim>\<open>row[name]\<close> on a row of the frame.\<close>

definition row_get :: "string list \<Rightarrow> jval list \<Rightarrow> string \<Rightarrow> error + jval" where
  "row_get cols row col =
     (case map_of (zip cols row) col of None \<Rightarrow> Inl KeyError | Some v \<Rightarrow> Inr v)"

definition vicon_example :: "config \<Rightarrow> string list \<Rightarrow> nat \<Rightarrow> jval list \<Rightarrow> error + jval dict" where
  "vicon_example cfg cols index row =
     (if schema cfg = ''source'' then Inr (dict_literal (zip cols row))
      else if schema cfg = ''seacrowd_pairs'' then
        (case row_get cols row ''Word1'' of
           Inl e \<Rightarrow> Inl e
         | Inr w1 \<Rightarrow>
        (case row_get cols row ''Word2'' of
           Inl e \<Rightarrow> Inl e
         | Inr w2 \<Rightarrow>
        (case row_get cols row ''Relation'' of
           Inl e \<Rightarrow> Inl e
         | Inr rel \<Rightarrow>
             Inr (dict_literal
                   [(''id'', JStr (str_int (int index))),
                    (''text_1'', JStr (py_str w1)),
                    (''text_1'', JStr (py_str w2)),
                    (''label'', JStr (py_str rel))]))))
      else Inl UnboundLocalError)"

text \<open>The loop over \<^verbatim>\<open>df.iterrows()\<close>: the records yielded and the exception that ended
  the generator, if any.\<close>

fun vicon_iterrows ::
  "config \<Rightarrow> string list \<Rightarrow> nat \<Rightarrow> jval list list \<Rightarrow> (nat \<times> jval dict) list \<times> error option" where
  "vicon_iterrows cfg cols index [] = ([], None)"
| "vicon_iterrows cfg cols index (row # rest) =
     (case vicon_example cfg cols index row of
        Inl e \<Rightarrow> ([], Some e)
      | Inr example \<Rightarrow>
          (case vicon_iterrows cfg cols (index + 1) rest of
             (ys, out) \<Rightarrow> ((index, example) # ys, out)))"

definition vicon_generate_examples ::
  "config \<Rightarrow> string list \<Rightarrow> (nat \<times> jval dict) list \<times> error option" where
  "vicon_generate_examples cfg lines =
     (let data = map (\<lambda>line. str_split (CHR 0x09) (strip line)) lines
      in case data of
           [] \<Rightarrow> ([], Some IndexError)
         | header # body \<Rightarrow>
             (case DataFrame body header of
                Inl e \<Rightarrow> ([], Some e)
              | Inr df \<Rightarrow> vicon_iterrows cfg (columns df) 0 (rows df)))"


section \<open>ViHealthQADataset (uit\_vicov19qa)\<close>








section \<open>Sample inputs\<close>

text \<open>
  Three stream lines, and a decoder that knows exactly these: two records for the
  language \<^verbatim>\<open>vi\<close> (positions 1 and 2 of the side table) and one for \<^verbatim>\<open>th\<close>.
\<close>

definition line_vi_1 :: string where
  \<open>line_vi_1 = ''{"trg_lang": "vi", "rec_num": 1, "caption_tokenized": "capA", "translation_tokenized": "transA", "backtranslation_tokenized": "backA"}''\<close>

definition line_th_2 :: string where
  \<open>line_th_2 = ''{"trg_lang": "th", "rec_num": 2, "caption_tokenized": "capB", "translation_tokenized": "transB", "backtranslation_tokenized": "backB"}''\<close>

definition line_vi_2 :: string where
  \<open>line_vi_2 = ''{"trg_lang": "vi", "rec_num": 2, "caption_tokenized": "capB", "translation_tokenized": "transC", "backtranslation_tokenized": "backC"}''\<close>

definition sample_loads :: "string \<Rightarrow> json option" where
  "sample_loads =
     map_of
       [(line_vi_1,
         JObj [(''trg_lang'', JStr ''vi''), (''rec_num'', JInt 1),
               (''caption_tokenized'', JStr ''capA''),
               (''translation_tokenized'', JStr ''transA''),
               (''backtranslation_tokenized'', JStr ''backA'')]),
        (line_th_2,
         JObj [(''trg_lang'', JStr ''th''), (''rec_num'', JInt 2),
               (''caption_tokenized'', JStr ''capB''),
               (''translation_tokenized'', JStr ''transB''),
               (''backtranslation_tokenized'', JStr ''backB'')]),
        (line_vi_2,
         JObj [(''trg_lang'', JStr ''vi''), (''rec_num'', JInt 2),
               (''caption_tokenized'', JStr ''capB''),
               (''translation_tokenized'', JStr ''transC''),
               (''backtranslation_tokenized'', JStr ''backC'')])]"

definition sample_df :: dataframe where
  "sample_df = [(''capA'', ''urlA''), (''capB'', ''urlB'')]"

definition imtext_config :: config where
  "imtext_config =
     \<lparr>name = ''cc3m_35l_vie_seacrowd_imtext'', schema = ''seacrowd_imtext'',
      subset_id = ''cc3m_35l_vie''\<rparr>"

definition source_config :: config where
  "source_config =
     \<lparr>name = ''cc3m_35l_vie_source'', schema = ''source'', subset_id = ''cc3m_35l_vie''\<rparr>"

text \<open>A freshly opened file with the given lines, each ended by a newline.\<close>

definition opened :: "string list \<Rightarrow> handle" where
  "opened ls = \<lparr>content = map (\<lambda>l. l @ [CHR 0x0A]) ls, cursor = 0\<rparr>"

text \<open>A decoded stream record, and a download that fails for one URL.\<close>

definition sample_line :: json where
  "sample_line =
     JObj [(''trg_lang'', JStr ''vi''), (''rec_num'', JInt 1),
           (''caption_tokenized'', JStr ''capA''),
           (''translation_tokenized'', JStr ''transA''),
           (''backtranslation_tokenized'', JStr ''backA'')]"

definition sample_download :: "string \<Rightarrow> string option" where
  "sample_download url = (if url = ''urlA2'' then None else Some (''/cache/'' @ url))"

text \<open>Configurations of the other loaders, and a ViCon file of a header and one pair.\<close>

definition pairs_config :: config where
  "pairs_config =
     \<lparr>name = ''vicon_adj_seacrowd_pairs'', schema = ''seacrowd_pairs'', subset_id = ''vicon_adj''\<rparr>"







definition vicon_sample_lines :: "string list" where
  "vicon_sample_lines =
     [''Word1'' @ [CHR 0x09] @ ''Word2'' @ [CHR 0x09] @ ''Relation'' @ [CHR 0x0A],
      ''hot'' @ [CHR 0x09] @ ''cold'' @ [CHR 0x09] @ ''ANT'' @ [CHR 0x0A]]"


section \<open>Properties of the Python helpers\<close>

lemma strip_Nil: "strip [] = []"
  by (simp add: strip_def lstrip_def rstrip_def)

lemma strip_blank_iff: "strip s = [] \<longleftrightarrow> (\<forall>c\<in>set s. isspace c)"
proof -
  let ?t = "dropWhile isspace s"
  have a: "?t \<noteq> [] \<Longrightarrow> \<not> (\<forall>c\<in>set ?t. isspace c)"
    using hd_dropWhile[of isspace s] hd_in_set[of ?t] by blast
  have "(\<forall>c\<in>set ?t. isspace c) \<longleftrightarrow> ?t = []"
  proof
    assume "\<forall>c\<in>set ?t. isspace c"
    with a show "?t = []" by blast
  next
    assume "?t = []"
    then show "\<forall>c\<in>set ?t. isspace c" by (auto dest: set_dropWhileD)
  qed
  moreover have "strip s = [] \<longleftrightarrow> (\<forall>c\<in>set ?t. isspace c)"
    by (simp add: strip_def lstrip_def rstrip_def dropWhile_eq_Nil_conv)
  moreover have "?t = [] \<longleftrightarrow> (\<forall>c\<in>set s. isspace c)"
    by (simp add: dropWhile_eq_Nil_conv)
  ultimately show ?thesis by blast
qed

lemma str_split_length: "length (str_split sep s) = Suc (length (filter (\<lambda>c. c = sep) s))"
  by (induction s) (auto split: list.splits)

lemma str_split_index_0: "index_list (str_split sep s) 0 = Inr (str_split sep s ! 0)"
  by (simp add: index_list_def str_split_length)

lemma str_split_index_1:
  "index_list (str_split sep s) (Suc 0) =
     (if sep \<in> set s then Inr (str_split sep s ! 1) else Inl IndexError)"
proof -
  have "filter (\<lambda>c. c = sep) s \<noteq> [] \<longleftrightarrow> sep \<in> set s"
    by (auto simp: filter_empty_conv)
  then have "1 < length (str_split sep s) \<longleftrightarrow> sep \<in> set s"
    by (simp add: str_split_length)
  then show ?thesis by (simp add: index_list_def)
qed



section \<open>CC3M35L: the loop over the handle and the loop over the unread lines\<close>

lemma loop_unread_Nil:
  "length (content fh) \<le> cursor fh \<Longrightarrow>
   loop cfg loads df lang fh st = ([], Inr st, fh\<lparr>cursor := 0\<rparr>)"
  by (subst loop.simps) (simp add: readline_def strip_Nil seek_def)

lemma loop_unread_Cons:
  "cursor fh < length (content fh) \<Longrightarrow>
   loop cfg loads df lang fh st =
     (let line = strip (content fh ! cursor fh); fh1 = fh\<lparr>cursor := cursor fh + 1\<rparr>
      in if line = [] then ([], Inr st, fh\<lparr>cursor := 0\<rparr>)
         else (case iteration cfg loads df lang line st of
                 (ys, Inl e) \<Rightarrow> (ys, Inl e, fh1)
               | (ys, Inr st') \<Rightarrow>
                   (case loop cfg loads df lang fh1 st' of
                      (zs, out, fh2) \<Rightarrow> (ys @ zs, out, fh2))))"
  by (subst loop.simps) (simp add: readline_def seek_def Let_def)

text \<open>The handle version yields and ends as the list version does on the unread lines,
  and a run that ends by \<^verbatim>\<open>return\<close> leaves the cursor at 0.\<close>

lemma loop_run:
  "\<exists>fh'. loop cfg loads df lang fh st =
     (fst (run cfg loads df lang (drop (cursor fh) (content fh)) st),
      snd (run cfg loads df lang (drop (cursor fh) (content fh)) st), fh') \<and>
     (\<forall>r. snd (run cfg loads df lang (drop (cursor fh) (content fh)) st) = Inr r
        \<longrightarrow> fh' = fh\<lparr>cursor := 0\<rparr>)"
proof (induction "length (content fh) - cursor fh" arbitrary: fh st)
  case 0
  then have "length (content fh) \<le> cursor fh" by simp
  then show ?case by (simp add: loop_unread_Nil)
next
  case (Suc n)
  then have lt: "cursor fh < length (content fh)" by simp
  let ?fh1 = "fh\<lparr>cursor := cursor fh + 1\<rparr>"
  let ?line = "strip (content fh ! cursor fh)"
  have n: "n = length (content ?fh1) - cursor ?fh1" using Suc.hyps(2) by simp
  have d: "drop (cursor fh) (content fh) = content fh ! cursor fh # drop (cursor ?fh1) (content ?fh1)"
    using lt by (simp add: Cons_nth_drop_Suc)
  show ?case
  proof (cases "?line = []")
    case True
    then show ?thesis unfolding loop_unread_Cons[OF lt] d by simp
  next
    case False
    obtain ys r where it: "iteration cfg loads df lang ?line st = (ys, r)"
      by (cases "iteration cfg loads df lang ?line st")
    show ?thesis
    proof (cases r)
      case (Inl e)
      then show ?thesis unfolding loop_unread_Cons[OF lt] d using False it by simp
    next
      case (Inr st')
      from Suc.hyps(1)[OF n, of st'] obtain fh' where
        l: "loop cfg loads df lang ?fh1 st' =
             (fst (run cfg loads df lang (drop (cursor ?fh1) (content ?fh1)) st'),
              snd (run cfg loads df lang (drop (cursor ?fh1) (content ?fh1)) st'), fh')"
        and z: "\<forall>r. snd (run cfg loads df lang (drop (cursor ?fh1) (content ?fh1)) st') = Inr r
                  \<longrightarrow> fh' = ?fh1\<lparr>cursor := 0\<rparr>"
        by blast
      show ?thesis
        unfolding loop_unread_Cons[OF lt] d using False it Inr l z
        by (simp add: Let_def split: prod.splits)
    qed
  qed
qed


section \<open>CC3M35L: what one pass of the loop body does\<close>

lemma iteration_not_accepted:
  assumes "\<not> accepted loads lang raw" "strip raw = line"
      and "iteration cfg loads df lang line st = (ys, r)"
  shows "ys = [] \<and> (\<forall>st'. r = Inr st' \<longrightarrow> st' = st)"
  using assms
  by (auto simp: iteration_def accepted_def split: option.splits sum.splits if_splits)

lemma iteration_accepted:
  assumes "accepted loads lang raw" "strip raw = line"
      and "iteration cfg loads df lang line st = (ys, r)"
  shows "(ys = [] \<or> ys = held_back st) \<and>
         (\<forall>st'. r = Inr st' \<longrightarrow>
            ys = held_back st \<and> fst st' = fst st + 1 \<and>
            (\<exists>d. snd st' = Some d \<and> ex_id d = str_int (fst st + 1)))"
  using assms
  by (auto simp: iteration_def accepted_def make_c_data_def held_back_def Let_def
           split: option.splits sum.splits if_splits)

lemma iteration_other_language:
  "other_language loads lang raw \<Longrightarrow>
   iteration cfg loads df lang (strip raw) st = ([], Inr st)"
  by (auto simp: iteration_def other_language_def split: option.splits sum.splits)

lemma lines_read_Cons:
  "lines_read (raw # rest) = (if strip raw \<noteq> [] then raw # lines_read rest else [])"
  by (simp add: lines_read_def)

lemma keys_shift:
  "map (\<lambda>i. k + int i) [0..<Suc n] = k # map (\<lambda>i. (k + 1) + int i) [0..<n]"
proof -
  have "[0..<Suc n] = 0 # map Suc [0..<n]"
    by (simp add: upt_conv_Cons map_Suc_upt del: upt_Suc)
  then show ?thesis by (simp add: comp_def del: upt_Suc)
qed

lemma run_keys:
  "run cfg loads df lang ls st = (ys, out) \<Longrightarrow>
   map fst ys = map (\<lambda>i. next_key st + int i) [0..<length ys]"
proof (induction ls arbitrary: st ys out)
  case Nil
  then show ?case by simp
next
  case (Cons raw rest)
  show ?case
  proof (cases "strip raw = []")
    case True
    with Cons.prems show ?thesis by simp
  next
    case False
    obtain ys1 r where it: "iteration cfg loads df lang (strip raw) st = (ys1, r)"
      by (cases "iteration cfg loads df lang (strip raw) st")
    have hb: "map fst (held_back st) = map (\<lambda>i. next_key st + int i) [0..<length (held_back st)]"
      by (simp add: held_back_def next_key_def split: option.splits)
    show ?thesis
    proof (cases r)
      case (Inl e)
      with Cons.prems False it have "ys = ys1" by simp
      moreover have "ys1 = [] \<or> ys1 = held_back st"
        using iteration_not_accepted[OF _ refl it] iteration_accepted[OF _ refl it]
        by (cases "accepted loads lang raw") auto
      ultimately show ?thesis using hb by auto
    next
      case (Inr st')
      obtain zs out' where rr: "run cfg loads df lang rest st' = (zs, out')"
        by (cases "run cfg loads df lang rest st'")
      with Cons.prems False it Inr have ys: "ys = ys1 @ zs" by simp
      note IH = Cons.IH[OF rr]
      show ?thesis
      proof (cases "accepted loads lang raw")
        case False
        with iteration_not_accepted[OF _ refl it] Inr have "ys1 = []" "st' = st" by auto
        with IH ys show ?thesis by simp
      next
        case True
        with iteration_accepted[OF _ refl it] Inr obtain d where
          a: "ys1 = held_back st" "fst st' = fst st + 1" "snd st' = Some d" by auto
        then have nk: "next_key st' = fst st + 1" by (simp add: next_key_def)
        show ?thesis
        proof (cases "snd st")
          case None
          then have "ys1 = []" "next_key st = fst st + 1"
            using a by (simp_all add: held_back_def next_key_def)
          with IH ys nk show ?thesis by simp
        next
          case (Some c)
          then have "ys1 = [(fst st, c)]" "next_key st = fst st"
            using a by (simp_all add: held_back_def next_key_def)
          with IH ys nk show ?thesis
            using keys_shift[of "fst st" "length zs"] by (simp del: upt_Suc)
        qed
      qed
    qed
  qed
qed

lemma run_ids:
  "run cfg loads df lang ls st = (ys, out) \<Longrightarrow>
   (\<forall>d. snd st = Some d \<longrightarrow> ex_id d = str_int (fst st)) \<Longrightarrow>
   (k, d) \<in> set ys \<Longrightarrow> ex_id d = str_int k"
proof (induction ls arbitrary: st ys out)
  case Nil
  then show ?case by simp
next
  case (Cons raw rest)
  show ?case
  proof (cases "strip raw = []")
    case True
    with Cons.prems show ?thesis by simp
  next
    case False
    obtain ys1 r where it: "iteration cfg loads df lang (strip raw) st = (ys1, r)"
      by (cases "iteration cfg loads df lang (strip raw) st")
    have hb: "(k, d) \<in> set (held_back st) \<Longrightarrow> ex_id d = str_int k"
      using Cons.prems(2) by (auto simp: held_back_def split: option.splits)
    have y1: "ys1 = [] \<or> ys1 = held_back st"
      using iteration_not_accepted[OF _ refl it] iteration_accepted[OF _ refl it]
      by (cases "accepted loads lang raw") auto
    show ?thesis
    proof (cases r)
      case (Inl e)
      with Cons.prems False it have "ys = ys1" by simp
      with y1 hb Cons.prems(3) show ?thesis by auto
    next
      case (Inr st')
      obtain zs out' where rr: "run cfg loads df lang rest st' = (zs, out')"
        by (cases "run cfg loads df lang rest st'")
      with Cons.prems False it Inr have ys: "ys = ys1 @ zs" by simp
      have inv: "\<forall>d. snd st' = Some d \<longrightarrow> ex_id d = str_int (fst st')"
        using iteration_not_accepted[OF _ refl it] iteration_accepted[OF _ refl it] Inr
          Cons.prems(2)
        by (cases "accepted loads lang raw") auto
      from Cons.prems(3) ys have "(k, d) \<in> set ys1 \<or> (k, d) \<in> set zs" by auto
      then show ?thesis
        using y1 hb Cons.IH[OF rr inv] by auto
    qed
  qed
qed

lemma run_count:
  "run cfg loads df lang ls st = (ys, Inr st') \<Longrightarrow>
   fst st' = fst st + int (length (filter (accepted loads lang) (lines_read ls))) \<and>
   length ys + length (held_back st') =
     length (held_back st) + length (filter (accepted loads lang) (lines_read ls)) \<and>
   (filter (accepted loads lang) (lines_read ls) = [] \<longrightarrow> st' = st) \<and>
   (filter (accepted loads lang) (lines_read ls) \<noteq> [] \<longrightarrow>
      (\<exists>d. snd st' = Some d \<and> ex_id d = str_int (fst st')))"
proof (induction ls arbitrary: st ys)
  case Nil
  then show ?case by (simp add: lines_read_def)
next
  case (Cons raw rest)
  show ?case
  proof (cases "strip raw = []")
    case True
    with Cons.prems show ?thesis by (simp add: lines_read_Cons)
  next
    case False
    obtain ys1 r where it: "iteration cfg loads df lang (strip raw) st = (ys1, r)"
      by (cases "iteration cfg loads df lang (strip raw) st")
    from Cons.prems False it obtain st1 where r: "r = Inr st1"
      by (cases r) (auto split: prod.splits)
    obtain zs out' where rr: "run cfg loads df lang rest st1 = (zs, out')"
      by (cases "run cfg loads df lang rest st1")
    with Cons.prems False it r have ys: "ys = ys1 @ zs" and o: "out' = Inr st'" by simp_all
    note IH = Cons.IH[OF rr[unfolded o]]
    show ?thesis
    proof (cases "accepted loads lang raw")
      case False
      with iteration_not_accepted[OF _ refl it] r have "ys1 = []" "st1 = st" by auto
      with IH ys False \<open>strip raw \<noteq> []\<close> show ?thesis by (auto simp: lines_read_Cons)
    next
      case True
      with iteration_accepted[OF _ refl it] r obtain d where
        a: "ys1 = held_back st" "fst st1 = fst st + 1" "snd st1 = Some d"
           "ex_id d = str_int (fst st + 1)" by auto
      then have h1: "length (held_back st1) = 1" by (simp add: held_back_def)
      have s1: "st1 = (fst st + 1, Some d)" using a by (cases st1) simp
      show ?thesis
        using IH ys True \<open>strip raw \<noteq> []\<close> a h1 s1
        by (auto simp: lines_read_Cons)
    qed
  qed
qed

lemma generate_examples_run:
  assumes "cc3m_generate_examples cfg loads (fh, df) lang = (ys, out, fh')"
  shows "run cfg loads df lang (drop (cursor fh) (content fh)) (- 1, None) = (ys, out)"
    and "out = Inr r \<Longrightarrow> fh' = fh\<lparr>cursor := 0\<rparr>"
proof -
  let ?run = "run cfg loads df lang (drop (cursor fh) (content fh)) (- 1, None)"
  from loop_run[of cfg loads df lang fh "(- 1, None)"] obtain fh2 where
    l: "loop cfg loads df lang fh (- 1, None) = (fst ?run, snd ?run, fh2)"
    and z: "\<forall>r. snd ?run = Inr r \<longrightarrow> fh2 = fh\<lparr>cursor := 0\<rparr>"
    by blast
  from assms l have e: "ys = fst ?run" "out = snd ?run" "fh' = fh2"
    by (simp_all add: cc3m_generate_examples_def)
  show "?run = (ys, out)" using e by simp
  show "out = Inr r \<Longrightarrow> fh' = fh\<lparr>cursor := 0\<rparr>" using e z by simp
qed

lemma run_fresh_return:
  assumes "run cfg loads df lang ls (- 1, None) = (ys, Inr (idx, c_data))"
  shows "map fst ys = map int [0..<accepted_count loads lang ls - 1]"
    and "idx = int (accepted_count loads lang ls) - 1"
    and "map (ex_id \<circ> snd) ys = map (str_int \<circ> fst) ys"
    and "accepted_count loads lang ls = 0 \<Longrightarrow> c_data = None \<and> ys = []"
    and "0 < accepted_count loads lang ls \<Longrightarrow>
           \<exists>d. c_data = Some d \<and> ex_id d = str_int idx \<and>
               length ys = accepted_count loads lang ls - 1"
proof -
  let ?k = "accepted_count loads lang ls"
  note c = run_count[OF assms, folded accepted_count_def]
  have keys: "map fst ys = map int [0..<length ys]"
    using run_keys[OF assms] by (simp add: next_key_def)
  show i: "idx = int ?k - 1" using c by simp
  have z: "?k = 0 \<Longrightarrow> c_data = None \<and> ys = []"
    using c by (auto simp: held_back_def accepted_count_def)
  have p: "0 < ?k \<Longrightarrow> \<exists>d. c_data = Some d \<and> ex_id d = str_int idx \<and> length ys = ?k - 1"
    using c by (auto simp: held_back_def accepted_count_def)
  show "?k = 0 \<Longrightarrow> c_data = None \<and> ys = []" by (rule z)
  show "0 < ?k \<Longrightarrow> \<exists>d. c_data = Some d \<and> ex_id d = str_int idx \<and> length ys = ?k - 1"
    by (rule p)
  have "length ys = ?k - 1" using z p by (cases "?k = 0") auto
  with keys show "map fst ys = map int [0..<?k - 1]" by simp
  have "\<And>k d. (k, d) \<in> set ys \<Longrightarrow> ex_id d = str_int k"
    using run_ids[OF assms] by simp
  then show "map (ex_id \<circ> snd) ys = map (str_int \<circ> fst) ys" by auto
qed

lemma run_drop_other_language:
  "run cfg loads df lang (filter (\<lambda>l. \<not> other_language loads lang l) ls) st
     = run cfg loads df lang ls st"
proof (induction ls arbitrary: st)
  case Nil
  then show ?case by simp
next
  case (Cons raw rest)
  show ?case
  proof (cases "other_language loads lang raw")
    case True
    then have "strip raw \<noteq> []" by (simp add: other_language_def)
    with True Cons.IH[of st] show ?thesis
      by (simp add: iteration_other_language)
  next
    case False
    with Cons.IH show ?thesis
      by (simp add: Let_def cong: if_cong prod.case_cong sum.case_cong)
  qed
qed

lemma run_blank_line:
  "strip b = [] \<Longrightarrow> run cfg loads df lang (xs @ b # zs) st = run cfg loads df lang xs st"
  by (induction xs arbitrary: st)
     (simp_all add: Let_def cong: if_cong prod.case_cong sum.case_cong)

lemma generate_examples_fresh:
  "cc3m_generate_examples cfg loads (\<lparr>content = ls, cursor = 0\<rparr>, df) lang = (ys, out, fh') \<Longrightarrow>
   run cfg loads df lang ls (- 1, None) = (ys, out)"
  using generate_examples_run(1)[of cfg loads "\<lparr>content = ls, cursor = 0\<rparr>" df lang ys out fh']
  by simp

lemma generate_examples_fresh_eq:
  "fst (cc3m_generate_examples cfg loads (\<lparr>content = ls, cursor = 0\<rparr>, df) lang)
     = fst (run cfg loads df lang ls (- 1, None)) \<and>
   fst (snd (cc3m_generate_examples cfg loads (\<lparr>content = ls, cursor = 0\<rparr>, df) lang))
     = snd (run cfg loads df lang ls (- 1, None))"
proof -
  obtain ys out fh' where
    g: "cc3m_generate_examples cfg loads (\<lparr>content = ls, cursor = 0\<rparr>, df) lang = (ys, out, fh')"
    by (cases "cc3m_generate_examples cfg loads (\<lparr>content = ls, cursor = 0\<rparr>, df) lang") auto
  from generate_examples_fresh[OF g] g show ?thesis by simp
qed


lemma fill_rows_result:
  assumes "getitem line ''translation_tokenized'' = Inr tr"
      and "getitem line ''backtranslation_tokenized'' = Inr bt"
  shows "fill_rows download line rs (exceptions, requested) =
           Inr (exceptions @ map fst (filter (\<lambda>(idx, row). download (snd row) = None) rs),
                requested @ map (\<lambda>(idx, row). snd row) rs)"
  using assms
  by (induction rs arbitrary: exceptions requested) (auto split: option.splits)


section \<open>CC3M35L: the claims\<close>

text \<open>
  C1. Side table \<open>{1: (capA, urlA), 2: (capB, urlB)}\<close>, a stream with one record for the
  requested language \<^verbatim>\<open>vi\<close> at position 1 and one record for \<^verbatim>\<open>th\<close>. The claim
  expects exactly one yielded record, with identifier "0" and reference urlA. The
  generator yields no record at all: the record for urlA with identifier "0" is built,
  held back, and then handed to \<^verbatim>\<open>return\<close> at the end of the stream, so it is the
  value of the generator's StopIteration and never one of its items. This is so under
  both schemas.
\<close>

theorem cc3m_single_match_yields_nothing:
  "cc3m_generate_examples imtext_config sample_loads
     (opened [line_vi_1, line_th_2], sample_df) ''vi''
   = ([],
      Inr (0, Some (ImtextExample ''0'' [''urlA''] (JStr ''transA'') None None)),
      opened [line_vi_1, line_th_2]) \<and>
   cc3m_generate_examples source_config sample_loads
     (opened [line_vi_1, line_th_2], sample_df) ''vi''
   = ([],
      Inr (0, Some (SourceExample ''0'' ''urlA'' ''en'' (JStr ''capA'') ''vie''
                      (JStr ''transA'') (JStr ''backA''))),
      opened [line_vi_1, line_th_2])"
  by code_simp

text \<open>
  C2. The claim: with k records accepted by the language filter, the identifiers emitted
  are exactly 0, 1, ..., k - 1. What the generator does, for every stream, side table,
  configuration and starting cursor, when it ends by \<^verbatim>\<open>return\<close>: with k accepted records
  among the lines it reads, the keys it yields are 0, 1, ..., k - 2, one fewer than
  claimed; the identifier in the returned pair is k - 1 (so it starts at -1 and goes up
  by one per accepted record); and every yielded record carries its key as its id.
\<close>

theorem cc3m_yields_all_but_last:
  assumes "cc3m_generate_examples cfg loads (fh, gcc_df) lang = (ys, Inr (idx, c_data), fh')"
  shows "map fst ys =
           map int [0..<accepted_count loads lang (drop (cursor fh) (content fh)) - 1] \<and>
         idx = int (accepted_count loads lang (drop (cursor fh) (content fh))) - 1 \<and>
         map (ex_id \<circ> snd) ys = map (str_int \<circ> fst) ys"
  using run_fresh_return(1,2,3)[OF generate_examples_run(1)[OF assms]] by blast

theorem cc3m_yields_all_but_last_witness:
  "cc3m_generate_examples imtext_config sample_loads
     (opened [line_vi_1, line_th_2, line_vi_2], sample_df) ''vi''
   = ([(0, ImtextExample ''0'' [''urlA''] (JStr ''transA'') None None)],
      Inr (1, Some (ImtextExample ''1'' [''urlB''] (JStr ''transC'') None None)),
      opened [line_vi_1, line_th_2, line_vi_2]) \<and>
   accepted_count sample_loads ''vi''
     (drop (cursor (opened [line_vi_1, line_th_2, line_vi_2]))
        (content (opened [line_vi_1, line_th_2, line_vi_2]))) = 2 \<and>
   map fst [(0 :: int, ImtextExample ''0'' [''urlA''] (JStr ''transA'') None None)]
     = map int [0..<2 - 1]"
proof -
  have r: "cc3m_generate_examples imtext_config sample_loads
     (opened [line_vi_1, line_th_2, line_vi_2], sample_df) ''vi''
   = ([(0, ImtextExample ''0'' [''urlA''] (JStr ''transA'') None None)],
      Inr (1, Some (ImtextExample ''1'' [''urlB''] (JStr ''transC'') None None)),
      opened [line_vi_1, line_th_2, line_vi_2])"
    by code_simp
  have k: "accepted_count sample_loads ''vi''
     (drop (cursor (opened [line_vi_1, line_th_2, line_vi_2]))
        (content (opened [line_vi_1, line_th_2, line_vi_2]))) = 2"
    by code_simp
  have c: "map fst [(0 :: int, ImtextExample ''0'' [''urlA''] (JStr ''transA'') None None)]
     = map int [0..<2 - 1]"
    using cc3m_yields_all_but_last[OF r, THEN conjunct1] unfolding k .
  from r k c show ?thesis by (intro conjI)
qed

text \<open>
  C5. A record whose \<^verbatim>\<open>trg_lang\<close> differs from the requested language is skipped
  entirely. Reading such a line leaves the loop where it was, with the same identifier and
  the same pending record, and yields nothing: the loop continues from the next line in
  the same state. Over a whole pass, deleting every such line from the stream changes
  neither the records yielded nor the way the generator ends.
\<close>

theorem cc3m_other_language_skipped:
  "(cursor fh < length (content fh) \<and> other_language loads lang (content fh ! cursor fh)
      \<longrightarrow> loop cfg loads gcc_df lang fh st
            = loop cfg loads gcc_df lang (fh\<lparr>cursor := cursor fh + 1\<rparr>) st) \<and>
   fst (cc3m_generate_examples cfg loads
          (\<lparr>content = filter (\<lambda>l. \<not> other_language loads lang l) ls, cursor = 0\<rparr>, gcc_df) lang)
     = fst (cc3m_generate_examples cfg loads (\<lparr>content = ls, cursor = 0\<rparr>, gcc_df) lang) \<and>
   fst (snd (cc3m_generate_examples cfg loads
          (\<lparr>content = filter (\<lambda>l. \<not> other_language loads lang l) ls, cursor = 0\<rparr>, gcc_df) lang))
     = fst (snd (cc3m_generate_examples cfg loads (\<lparr>content = ls, cursor = 0\<rparr>, gcc_df) lang))"
proof (intro conjI impI)
  assume a: "cursor fh < length (content fh) \<and> other_language loads lang (content fh ! cursor fh)"
  then have "strip (content fh ! cursor fh) \<noteq> []" by (simp add: other_language_def)
  with a show "loop cfg loads gcc_df lang fh st
            = loop cfg loads gcc_df lang (fh\<lparr>cursor := cursor fh + 1\<rparr>) st"
    by (subst loop_unread_Cons) (simp_all add: iteration_other_language)
next
  show "fst (cc3m_generate_examples cfg loads
          (\<lparr>content = filter (\<lambda>l. \<not> other_language loads lang l) ls, cursor = 0\<rparr>, gcc_df) lang)
     = fst (cc3m_generate_examples cfg loads (\<lparr>content = ls, cursor = 0\<rparr>, gcc_df) lang)"
    by (simp add: generate_examples_fresh_eq run_drop_other_language)
next
  show "fst (snd (cc3m_generate_examples cfg loads
          (\<lparr>content = filter (\<lambda>l. \<not> other_language loads lang l) ls, cursor = 0\<rparr>, gcc_df) lang))
     = fst (snd (cc3m_generate_examples cfg loads (\<lparr>content = ls, cursor = 0\<rparr>, gcc_df) lang))"
    by (simp add: generate_examples_fresh_eq run_drop_other_language)
qed

theorem cc3m_other_language_skipped_witness:
  "loop imtext_config sample_loads sample_df ''vi''
     ((opened [line_vi_1, line_th_2, line_vi_2])\<lparr>cursor := 1\<rparr>) (0, None)
   = loop imtext_config sample_loads sample_df ''vi''
       ((opened [line_vi_1, line_th_2, line_vi_2])\<lparr>cursor := 1\<rparr>
          \<lparr>cursor := cursor ((opened [line_vi_1, line_th_2, line_vi_2])\<lparr>cursor := 1\<rparr>) + 1\<rparr>)
       (0, None) \<and>
   other_language sample_loads ''vi''
     (content ((opened [line_vi_1, line_th_2, line_vi_2])\<lparr>cursor := 1\<rparr>)
        ! cursor ((opened [line_vi_1, line_th_2, line_vi_2])\<lparr>cursor := 1\<rparr>))"
proof -
  let ?fh = "(opened [line_vi_1, line_th_2, line_vi_2])\<lparr>cursor := 1\<rparr>"
  have h: "cursor ?fh < length (content ?fh) \<and>
           other_language sample_loads ''vi'' (content ?fh ! cursor ?fh)"
    by code_simp
  have t: "loop imtext_config sample_loads sample_df ''vi'' ?fh (0, None)
   = loop imtext_config sample_loads sample_df ''vi'' (?fh\<lparr>cursor := cursor ?fh + 1\<rparr>) (0, None)"
    using cc3m_other_language_skipped[where fh = ?fh and loads = sample_loads and lang = "''vi''",
            THEN conjunct1, rule_format, OF h] .
  from t h[THEN conjunct2] show ?thesis by (intro conjI)
qed

text \<open>
  C6, as stated, at a stream without any accepted record: the claim has exactly one record
  held back at any time and the last pending record returned at the end of the stream.
  Here nothing is ever pending, and the generator returns identifier -1 with
  \<^verbatim>\<open>None\<close>.
\<close>

theorem cc3m_no_pending_counterexample:
  "cc3m_generate_examples imtext_config sample_loads (opened [line_th_2], sample_df) ''vi''
   = ([], Inr (- 1, None), opened [line_th_2])"
  by code_simp

text \<open>
  C6, amended. At the end of the stream nothing is yielded, the cursor is set back to 0, and
  the loop state, the current identifier and the pending record, is returned. Over a whole
  pass that ends this way, with k accepted records among the lines read: the cursor is 0
  afterwards; the returned identifier is k - 1; the records yielded and the record
  returned together are the k records built, so at most one record is held back, none
  when k = 0 (the returned pair is then -1 and \<^verbatim>\<open>None\<close>) and exactly one otherwise; and
  that one carries the returned identifier as its id and is not among the records yielded.
\<close>

theorem cc3m_end_of_stream:
  "(length (content fh) \<le> cursor fh \<longrightarrow>
      loop cfg loads gcc_df lang fh st = ([], Inr st, fh\<lparr>cursor := 0\<rparr>)) \<and>
   (cc3m_generate_examples cfg loads (fh, gcc_df) lang = (ys, Inr (idx, c_data), fh') \<longrightarrow>
      fh' = fh\<lparr>cursor := 0\<rparr> \<and>
      idx = int (accepted_count loads lang (drop (cursor fh) (content fh))) - 1 \<and>
      length ys + length (held_back (idx, c_data))
        = accepted_count loads lang (drop (cursor fh) (content fh)) \<and>
      (accepted_count loads lang (drop (cursor fh) (content fh)) = 0 \<longrightarrow> c_data = None) \<and>
      (0 < accepted_count loads lang (drop (cursor fh) (content fh)) \<longrightarrow>
         (\<exists>d. c_data = Some d \<and> ex_id d = str_int idx \<and> (idx, d) \<notin> set ys)))"
proof (intro conjI impI)
  assume "length (content fh) \<le> cursor fh"
  then show "loop cfg loads gcc_df lang fh st = ([], Inr st, fh\<lparr>cursor := 0\<rparr>)"
    by (rule loop_unread_Nil)
next
  let ?k = "accepted_count loads lang (drop (cursor fh) (content fh))"
  assume g: "cc3m_generate_examples cfg loads (fh, gcc_df) lang = (ys, Inr (idx, c_data), fh')"
  note r = generate_examples_run(1)[OF g]
  note f = run_fresh_return[OF r]
  show "fh' = fh\<lparr>cursor := 0\<rparr>" by (rule generate_examples_run(2)[OF g refl])
  show i: "idx = int ?k - 1" by (rule f(2))
  have len: "length ys = ?k - 1" using f(1) by (metis length_map length_upt minus_nat.diff_0)
  show "length ys + length (held_back (idx, c_data)) = ?k"
    using f(4) f(5) len by (cases "?k = 0") (auto simp: held_back_def)
  show "c_data = None" if "?k = 0" using f(4)[OF that] by simp
  show "\<exists>d. c_data = Some d \<and> ex_id d = str_int idx \<and> (idx, d) \<notin> set ys" if "0 < ?k"
  proof -
    from f(5)[OF that] obtain d where d: "c_data = Some d" "ex_id d = str_int idx" by blast
    have "idx \<notin> set (map fst ys)" using f(1) i by auto
    then have "(idx, d) \<notin> set ys" by force
    with d show ?thesis by blast
  qed
qed

theorem cc3m_end_of_stream_witness:
  "cc3m_generate_examples imtext_config sample_loads
     (opened [line_vi_1, line_th_2, line_vi_2], sample_df) ''vi''
   = ([(0, ImtextExample ''0'' [''urlA''] (JStr ''transA'') None None)],
      Inr (1, Some (ImtextExample ''1'' [''urlB''] (JStr ''transC'') None None)),
      opened [line_vi_1, line_th_2, line_vi_2]) \<and>
   opened [line_vi_1, line_th_2, line_vi_2]
     = (opened [line_vi_1, line_th_2, line_vi_2])\<lparr>cursor := 0\<rparr>"
proof -
  have r: "cc3m_generate_examples imtext_config sample_loads
     (opened [line_vi_1, line_th_2, line_vi_2], sample_df) ''vi''
   = ([(0, ImtextExample ''0'' [''urlA''] (JStr ''transA'') None None)],
      Inr (1, Some (ImtextExample ''1'' [''urlB''] (JStr ''transC'') None None)),
      opened [line_vi_1, line_th_2, line_vi_2])"
    by code_simp
  from cc3m_end_of_stream[THEN conjunct2, rule_format, OF r, THEN conjunct1] r
  show ?thesis by (intro conjI)
qed

text \<open>
  C7. A pass over a freshly opened stream (cursor 0) that runs to its end leaves the handle
  as it found it, so a second pass over the same handle yields the same records under the
  same keys and returns the same pair.
\<close>

theorem cc3m_restart_identical:
  assumes "cc3m_generate_examples cfg loads (fh, gcc_df) lang = (ys, Inr r, fh')"
      and "cursor fh = 0"
  shows "cc3m_generate_examples cfg loads (fh', gcc_df) lang = (ys, Inr r, fh')"
proof -
  from generate_examples_run(2)[OF assms(1) refl] assms(2) have "fh' = fh" by simp
  with assms(1) show ?thesis by simp
qed

theorem cc3m_restart_identical_witness:
  "cursor (opened [line_vi_1, line_th_2, line_vi_2]) = 0 \<and>
   cc3m_generate_examples imtext_config sample_loads
     (opened [line_vi_1, line_th_2, line_vi_2], sample_df) ''vi''
   = ([(0, ImtextExample ''0'' [''urlA''] (JStr ''transA'') None None)],
      Inr (1, Some (ImtextExample ''1'' [''urlB''] (JStr ''transC'') None None)),
      opened [line_vi_1, line_th_2, line_vi_2])"
proof -
  have r: "cc3m_generate_examples imtext_config sample_loads
     (opened [line_vi_1, line_th_2, line_vi_2], sample_df) ''vi''
   = ([(0, ImtextExample ''0'' [''urlA''] (JStr ''transA'') None None)],
      Inr (1, Some (ImtextExample ''1'' [''urlB''] (JStr ''transC'') None None)),
      opened [line_vi_1, line_th_2, line_vi_2])"
    by code_simp
  have c: "cursor (opened [line_vi_1, line_th_2, line_vi_2]) = 0"
    by (simp add: opened_def)
  have t: "cc3m_generate_examples imtext_config sample_loads
     (opened [line_vi_1, line_th_2, line_vi_2], sample_df) ''vi''
   = ([(0, ImtextExample ''0'' [''urlA''] (JStr ''transA'') None None)],
      Inr (1, Some (ImtextExample ''1'' [''urlB''] (JStr ''transC'') None None)),
      opened [line_vi_1, line_th_2, line_vi_2])"
    by (rule cc3m_restart_identical[OF r c])
  from c t show ?thesis by (intro conjI)
qed

text \<open>
  C9. A line made of whitespace only (the empty line included) ends the generation as the
  end of the stream does: the records yielded and the way the generator ends are those of
  the stream cut before that line, whatever follows it; and when the generator ends by
  returning, the cursor is back at 0.
\<close>

theorem cc3m_blank_line_ends_generation:
  assumes "\<forall>c\<in>set b. isspace c"
  shows "fst (cc3m_generate_examples cfg loads (\<lparr>content = xs @ b # zs, cursor = 0\<rparr>, gcc_df) lang)
           = fst (cc3m_generate_examples cfg loads (\<lparr>content = xs, cursor = 0\<rparr>, gcc_df) lang) \<and>
         fst (snd (cc3m_generate_examples cfg loads
                     (\<lparr>content = xs @ b # zs, cursor = 0\<rparr>, gcc_df) lang))
           = fst (snd (cc3m_generate_examples cfg loads (\<lparr>content = xs, cursor = 0\<rparr>, gcc_df) lang)) \<and>
         (\<forall>r. fst (snd (cc3m_generate_examples cfg loads
                          (\<lparr>content = xs @ b # zs, cursor = 0\<rparr>, gcc_df) lang)) = Inr r \<longrightarrow>
              snd (snd (cc3m_generate_examples cfg loads
                          (\<lparr>content = xs @ b # zs, cursor = 0\<rparr>, gcc_df) lang))
                = \<lparr>content = xs @ b # zs, cursor = 0\<rparr>)"
proof -
  from assms have s: "strip b = []" by (simp add: strip_blank_iff)
  let ?g = "cc3m_generate_examples cfg loads (\<lparr>content = xs @ b # zs, cursor = 0\<rparr>, gcc_df) lang"
  obtain ys out fh' where g: "?g = (ys, out, fh')" by (cases ?g) auto
  have f: "\<forall>r. out = Inr r \<longrightarrow> fh' = \<lparr>content = xs @ b # zs, cursor = 0\<rparr>"
    using generate_examples_run(2)[OF g] by simp
  have e: "fst ?g = fst (run cfg loads gcc_df lang xs (- 1, None))"
          "fst (snd ?g) = snd (run cfg loads gcc_df lang xs (- 1, None))"
    by (simp_all add: generate_examples_fresh_eq run_blank_line[OF s])
  have "\<forall>r. fst (snd ?g) = Inr r \<longrightarrow> snd (snd ?g) = \<lparr>content = xs @ b # zs, cursor = 0\<rparr>"
    using f g by simp
  with e show ?thesis by (simp add: generate_examples_fresh_eq)
qed

theorem cc3m_blank_line_ends_generation_witness:
  "fst (cc3m_generate_examples imtext_config sample_loads
          (\<lparr>content = [line_vi_1 @ [CHR 0x0A]] @ [CHR '' '', CHR 0x09, CHR 0x0A]
                          # [line_vi_2 @ [CHR 0x0A]], cursor = 0\<rparr>, sample_df) ''vi'')
     = fst (cc3m_generate_examples imtext_config sample_loads
              (\<lparr>content = [line_vi_1 @ [CHR 0x0A]], cursor = 0\<rparr>, sample_df) ''vi'') \<and>
   fst (cc3m_generate_examples imtext_config sample_loads
          (\<lparr>content = [line_vi_1 @ [CHR 0x0A]], cursor = 0\<rparr>, sample_df) ''vi'') = []"
proof -
  have b: "\<forall>c\<in>set [CHR '' '', CHR 0x09, CHR 0x0A]. isspace c"
    by code_simp
  have e: "fst (cc3m_generate_examples imtext_config sample_loads
          (\<lparr>content = [line_vi_1 @ [CHR 0x0A]], cursor = 0\<rparr>, sample_df) ''vi'') = []"
    by code_simp
  from cc3m_blank_line_ends_generation[OF b, THEN conjunct1] e
  show ?thesis by (intro conjI)
qed

text \<open>
  C8. In \<^verbatim>\<open>fill_img_path\<close> a failing download never propagates. For any download
  function and any frame, when the stream record has its three text fields the call
  returns normally with the matched rows, the index labels of exactly those matched rows
  whose download failed, in order, and each matched row's URL requested exactly once, in
  order: rows after a failure are still fetched, and nothing is fetched twice.
\<close>

theorem fill_img_path_failures_recorded:
  assumes "getitem line ''caption_tokenized'' = Inr v"
      and "getitem line ''translation_tokenized'' = Inr tr"
      and "getitem line ''backtranslation_tokenized'' = Inr bt"
  shows "fill_img_path download df line =
           Inr (query_caption df v,
                map fst (filter (\<lambda>(idx, row). download (snd row) = None) (query_caption df v)),
                map (\<lambda>(idx, row). snd row) (query_caption df v))"
  using assms by (simp add: fill_img_path_def Let_def fill_rows_result[OF assms(2,3)])

theorem fill_img_path_failures_recorded_witness:
  "fill_img_path sample_download
     [(1, (''capA'', ''urlA1'')), (2, (''capB'', ''urlB'')), (3, (''capA'', ''urlA2'')),
      (4, (''capA'', ''urlA3''))] sample_line
   = Inr ([(1, (''capA'', ''urlA1'')), (3, (''capA'', ''urlA2'')), (4, (''capA'', ''urlA3''))],
          [3], [''urlA1'', ''urlA2'', ''urlA3''])"
proof -
  have a: "getitem sample_line ''caption_tokenized'' = Inr (JStr ''capA'')"
          "getitem sample_line ''translation_tokenized'' = Inr (JStr ''transA'')"
          "getitem sample_line ''backtranslation_tokenized'' = Inr (JStr ''backA'')"
    by (simp_all add: sample_line_def)
  show ?thesis
    unfolding fill_img_path_failures_recorded[OF a]
    by (simp add: query_caption_def sample_download_def)
qed


section \<open>IndonesianMadureseBibleTranslationDataset: the claims\<close>

lemma read_corpus_lines_raises:
  "(\<exists>line\<in>set ls. untabbed line) \<Longrightarrow> read_corpus_lines ls acc = Inl IndexError"
proof (induction ls arbitrary: acc)
  case Nil
  then show ?case by simp
next
  case (Cons line rest)
  obtain all_data i where acc: "acc = (all_data, i)" by (cases acc)
  show ?case
  proof (cases "untabbed line")
    case True
    then show ?thesis unfolding acc
      by (simp add: untabbed_def str_split_index_0 str_split_index_1)
  next
    case False
    with Cons.prems have "\<exists>l\<in>set rest. untabbed l" by auto
    from Cons.IH[OF this] False show ?thesis unfolding acc
      by (auto simp: untabbed_def str_split_index_0 str_split_index_1)
  qed
qed

lemma read_corpus_lines_succeeds:
  "\<not> (\<exists>line\<in>set ls. untabbed line) \<Longrightarrow> \<exists>acc'. read_corpus_lines ls acc = Inr acc'"
proof (induction ls arbitrary: acc)
  case Nil
  then show ?case by (cases acc) simp
next
  case (Cons line rest)
  obtain all_data i where acc: "acc = (all_data, i)" by (cases acc)
  from Cons.prems have r: "\<not> (\<exists>l\<in>set rest. untabbed l)" and l: "\<not> untabbed line" by auto
  show ?case unfolding acc using Cons.IH[OF r] l
    by (auto simp: untabbed_def str_split_index_0 str_split_index_1)
qed

lemma read_corpus_files_raises:
  "(\<exists>ls\<in>set files. \<exists>line\<in>set ls. untabbed line) \<Longrightarrow> read_corpus_files files acc = Inl IndexError"
proof (induction files arbitrary: acc)
  case Nil
  then show ?case by simp
next
  case (Cons ls rest)
  show ?case
  proof (cases "\<exists>line\<in>set ls. untabbed line")
    case True
    then show ?thesis by (simp add: read_corpus_lines_raises)
  next
    case False
    with Cons.prems have r: "\<exists>ls\<in>set rest. \<exists>line\<in>set ls. untabbed line" by auto
    from read_corpus_lines_succeeds[OF False] obtain acc' where
      "read_corpus_lines ls acc = Inr acc'" by blast
    with Cons.IH[OF r] show ?thesis by simp
  qed
qed

lemma read_corpus_files_succeeds:
  "\<not> (\<exists>ls\<in>set files. \<exists>line\<in>set ls. untabbed line) \<Longrightarrow> \<exists>acc'. read_corpus_files files acc = Inr acc'"
proof (induction files arbitrary: acc)
  case Nil
  then show ?case by simp
next
  case (Cons ls rest)
  then have l: "\<not> (\<exists>line\<in>set ls. untabbed line)"
    and r: "\<not> (\<exists>ls\<in>set rest. \<exists>line\<in>set ls. untabbed line)" by auto
  from read_corpus_lines_succeeds[OF l] obtain acc' where
    "read_corpus_lines ls acc = Inr acc'" by blast
  with Cons.IH[OF r] show ?case by simp
qed

lemma split_generators_selected:
  "madurese_split_generators data_dir listing =
     (case read_corpus_files (selected_files data_dir listing) ([], 0) of
        Inl e \<Rightarrow> Inl e
      | Inr (all_data, i) \<Rightarrow> Inr all_data)"
proof -
  have "map snd (filter (\<lambda>(raw_path, ls). str_contains ''txt'' raw_path)
          (map (\<lambda>(item, ls). (data_dir @ ''/'' @ item, ls)) listing))
        = selected_files data_dir listing"
    unfolding selected_files_def by (induction listing) auto
  then show ?thesis by (simp add: madurese_split_generators_def Let_def)
qed













text \<open>
  C10. \<^verbatim>\<open>_split_generators\<close> raises IndexError, and so ends before \<^verbatim>\<open>train.jsonl\<close> is
  written or any record generated, exactly when some line of some selected file is not
  the bare newline and contains no tab; in every other case it returns the rows. A tab in
  every such line is the precondition of a successful pass.
\<close>

theorem madurese_line_without_tab_raises:
  "(if \<exists>ls\<in>set (selected_files data_dir listing). \<exists>line\<in>set ls. untabbed line
    then madurese_split_generators data_dir listing = Inl IndexError
    else \<exists>all_data. madurese_split_generators data_dir listing = Inr all_data)"
proof (cases "\<exists>ls\<in>set (selected_files data_dir listing). \<exists>line\<in>set ls. untabbed line")
  case True
  then show ?thesis
    by (simp add: split_generators_selected read_corpus_files_raises)
next
  case False
  from read_corpus_files_succeeds[OF False] obtain acc' where
    "read_corpus_files (selected_files data_dir listing) ([], 0) = Inr acc'" by blast
  with False show ?thesis
    by (cases acc') (simp add: split_generators_selected)
qed

theorem madurese_line_without_tab_raises_witness:
  "madurese_split_generators ''/data''
     [(''a.txt'', [''x'' @ [CHR 0x09] @ ''y'' @ [CHR 0x0A], [CHR 0x0A], ''no tab here'' @ [CHR 0x0A]])]
   = Inl IndexError \<and>
   (\<exists>all_data. madurese_split_generators ''/data''
     [(''a.txt'', [''x'' @ [CHR 0x09] @ ''y'' @ [CHR 0x0A], [CHR 0x0A]])] = Inr all_data)"
proof -
  have a: "\<exists>ls\<in>set (selected_files ''/data''
     [(''a.txt'', [''x'' @ [CHR 0x09] @ ''y'' @ [CHR 0x0A], [CHR 0x0A], ''no tab here'' @ [CHR 0x0A]])]).
        \<exists>line\<in>set ls. untabbed line"
    by code_simp
  have b: "\<not> (\<exists>ls\<in>set (selected_files ''/data''
     [(''a.txt'', [''x'' @ [CHR 0x09] @ ''y'' @ [CHR 0x0A], [CHR 0x0A]])]).
        \<exists>line\<in>set ls. untabbed line)"
    by code_simp
  have 1: "madurese_split_generators ''/data''
     [(''a.txt'', [''x'' @ [CHR 0x09] @ ''y'' @ [CHR 0x0A], [CHR 0x0A], ''no tab here'' @ [CHR 0x0A]])]
   = Inl IndexError"
    using madurese_line_without_tab_raises[of "''/data''"
       "[(''a.txt'', [''x'' @ [CHR 0x09] @ ''y'' @ [CHR 0x0A], [CHR 0x0A], ''no tab here'' @ [CHR 0x0A]])]"]
    unfolding if_P[OF a] .
  have 2: "\<exists>all_data. madurese_split_generators ''/data''
     [(''a.txt'', [''x'' @ [CHR 0x09] @ ''y'' @ [CHR 0x0A], [CHR 0x0A]])] = Inr all_data"
    using madurese_line_without_tab_raises[of "''/data''"
       "[(''a.txt'', [''x'' @ [CHR 0x09] @ ''y'' @ [CHR 0x0A], [CHR 0x0A]])]"]
    unfolding if_not_P[OF b] .
  from 1 2 show ?thesis by (intro conjI)
qed


section \<open>ViConDataset and ViHealthQADataset: the claims\<close>








text \<open>
  C4, as stated, at the row Word1 = hot, Word2 = cold, Relation = ANT under
  \<^verbatim>\<open>seacrowd_pairs\<close>: the claim has the first and the second text field of the emitted
  record hold the same value. The emitted record has the three keys \<^verbatim>\<open>id\<close>,
  \<^verbatim>\<open>text_1\<close> and \<^verbatim>\<open>label\<close> only: there is no second text field at all.
\<close>

theorem vicon_pairs_no_second_text_counterexample:
  "vicon_generate_examples pairs_config vicon_sample_lines
     = ([(0, [(''id'', JStr ''0''), (''text_1'', JStr ''cold''), (''label'', JStr ''ANT'')])], None) \<and>
   map_of [(''id'', JStr ''0''), (''text_1'', JStr ''cold''), (''label'', JStr ''ANT'')] ''text_2''
     = None"
  by code_simp

text \<open>
  C4, amended. Under \<^verbatim>\<open>seacrowd_pairs\<close>, for every row with the columns Word1, Word2 and
  Relation, the emitted record is exactly \<^verbatim>\<open>id\<close>, \<^verbatim>\<open>text_1\<close> and \<^verbatim>\<open>label\<close>: the key
  \<^verbatim>\<open>text_1\<close> is written twice in the dictionary literal, so it ends up holding the
  second word, the first word is discarded (the record does not depend on it), and no
  \<^verbatim>\<open>text_2\<close> is emitted.
\<close>

theorem vicon_pairs_first_word_discarded:
  assumes "schema cfg = ''seacrowd_pairs''"
      and "row_get cols row ''Word1'' = Inr w1"
      and "row_get cols row ''Word2'' = Inr w2"
      and "row_get cols row ''Relation'' = Inr rel"
  shows "vicon_example cfg cols index row =
           Inr [(''id'', JStr (str_int (int index))),
                (''text_1'', JStr (py_str w2)),
                (''label'', JStr (py_str rel))]"
  using assms by (simp add: vicon_example_def dict_literal_def)

theorem vicon_pairs_first_word_discarded_witness:
  "vicon_example pairs_config [''Word1'', ''Word2'', ''Relation'']
     0 [JStr ''hot'', JStr ''cold'', JStr ''ANT'']
   = Inr [(''id'', JStr (str_int (int 0))),
          (''text_1'', JStr (py_str (JStr ''cold''))),
          (''label'', JStr (py_str (JStr ''ANT'')))]"
proof -
  have a: "schema pairs_config = ''seacrowd_pairs''"
    by (simp add: pairs_config_def)
  have b: "row_get [''Word1'', ''Word2'', ''Relation''] [JStr ''hot'', JStr ''cold'', JStr ''ANT'']
             ''Word1'' = Inr (JStr ''hot'')"
          "row_get [''Word1'', ''Word2'', ''Relation''] [JStr ''hot'', JStr ''cold'', JStr ''ANT'']
             ''Word2'' = Inr (JStr ''cold'')"
          "row_get [''Word1'', ''Word2'', ''Relation''] [JStr ''hot'', JStr ''cold'', JStr ''ANT'']
             ''Relation'' = Inr (JStr ''ANT'')"
    by (simp_all add: row_get_def)
  show ?thesis by (rule vicon_pairs_first_word_discarded[OF a b])
qed


section \<open>All loaders: keys and identifiers\<close>




end
